theory Spec2Isabelle
  imports Main "HOL-Library.Word"
begin

section \<open>The session of a client (session/session.go)\<close>

text \<open>
  A shallow embedding of \<^verbatim>\<open>session.go\<close>: the \<^verbatim>\<open>Info\<close> and \<^verbatim>\<open>Session\<close> structs as
  records, every method as a function from the session before the call to the session
  after it. The mutex is not modelled: each method holds it for its whole body, so a
  call is one step. What a method does to its collaborators (the queues, the topic
  exchange, the session bucket, the logger, the completion callback of an event) is
  recorded in the state, in the order of the calls.
\<close>

subsection \<open>Messages and events\<close>

text \<open>\<^verbatim>\<open>mqtt.QOS\<close> is a byte; the QoS of a message context and the result of
  \<^verbatim>\<open>matchQOS\<close> are \<^verbatim>\<open>uint32\<close>.\<close>

type_synonym QOS = "8 word"

text \<open>Of a message the session reads \<^verbatim>\<open>Context.QOS\<close> and \<^verbatim>\<open>Context.Topic\<close> only.\<close>

record Context =
  QOS :: "32 word"
  Topic :: string

record Message =
  Context :: Context
  Content :: string

text \<open>A \<^verbatim>\<open>common.Event\<close> is a message with a completion callback \<^verbatim>\<open>Done\<close>; the calls of
  the callback are recorded in the field \<open>completed\<close> of the session state below.\<close>

type_synonym Event = Message

record Subscription =
  sub_Topic :: string
  sub_QOS :: QOS

datatype error = ErrSessionMessageTopicNotPermitted | Failure string

subsection \<open>Go maps with string keys\<close>

text \<open>
  A Go map that the code ranges over is an association list with distinct keys. Go
  leaves the order of a \<^verbatim>\<open>range\<close> over a map open; the model ranges in the order of
  the list, which is one of the orders Go may take.
\<close>

primrec assoc_set :: "string \<Rightarrow> 'v \<Rightarrow> (string \<times> 'v) list \<Rightarrow> (string \<times> 'v) list" where
  "assoc_set k v [] = [(k, v)]"
| "assoc_set k v (p # ps) = (if fst p = k then (k, v) # ps else p # assoc_set k v ps)"

primrec assoc_delete :: "string \<Rightarrow> (string \<times> 'v) list \<Rightarrow> (string \<times> 'v) list" where
  "assoc_delete k [] = []"
| "assoc_delete k (p # ps) = (if fst p = k then assoc_delete k ps else p # assoc_delete k ps)"

subsection \<open>Info\<close>

text \<open>\<^verbatim>\<open>Subscriptions\<close> is \<open>None\<close> for the nil map.\<close>

record Info =
  ID :: string
  WillMessage :: "Message option"
  Subscriptions :: "(string \<times> QOS) list option"
  CleanSession :: bool

text \<open>The entries a \<^verbatim>\<open>range\<close> over \<^verbatim>\<open>Subscriptions\<close> visits: none for the nil map.\<close>

definition entries :: "Info \<Rightarrow> (string \<times> QOS) list" where
  "entries i = (case Subscriptions i of None \<Rightarrow> [] | Some m \<Rightarrow> m)"

subsection \<open>Collaborators\<close>

text \<open>
  Modelled from the spec: \<^verbatim>\<open>mqtt.Trie\<close> (the subscription matcher) is not under src.
  Section 6 gives \<^verbatim>\<open>Set(pattern, qos)\<close>, \<^verbatim>\<open>Empty(pattern)\<close>,
  \<^verbatim>\<open>Match(topic)\<close> returning the QoS values of the matching patterns, and a combined
  query "does match and maximum QoS". Patterns are matched level by level, \<^verbatim>\<open>+\<close> for one
  level and \<^verbatim>\<open>#\<close> for all remaining levels, as the spec's example (pattern \<^verbatim>\<open>a/#\<close>
  matches topic \<^verbatim>\<open>a/b\<close>) needs.
\<close>

type_synonym Trie = "(string \<times> QOS) list"

fun split_topic :: "string \<Rightarrow> string list" where
  "split_topic [] = [[]]"
| "split_topic (c # cs) =
     (if c = CHR ''/'' then [] # split_topic cs
      else (case split_topic cs of [] \<Rightarrow> [[c]] | l # ls \<Rightarrow> (c # l) # ls))"

fun levels_match :: "string list \<Rightarrow> string list \<Rightarrow> bool" where
  "levels_match [] ts = (ts = [])"
| "levels_match (p # ps) ts =
     (if p = ''#'' then True
      else (case ts of [] \<Rightarrow> False
            | t # ts' \<Rightarrow> (p = ''+'' \<or> p = t) \<and> levels_match ps ts'))"

definition topic_matches :: "string \<Rightarrow> string \<Rightarrow> bool" where
  "topic_matches pattern topic = levels_match (split_topic pattern) (split_topic topic)"

definition Trie_Set :: "string \<Rightarrow> QOS \<Rightarrow> Trie \<Rightarrow> Trie" where
  "Trie_Set pattern qos t = assoc_set pattern qos t"

definition Trie_Empty :: "string \<Rightarrow> Trie \<Rightarrow> Trie" where
  "Trie_Empty pattern t = assoc_delete pattern t"

definition Trie_Match :: "Trie \<Rightarrow> string \<Rightarrow> QOS list" where
  "Trie_Match t topic = map snd (filter (\<lambda>p. topic_matches (fst p) topic) t)"

definition MatchTopicQOS :: "Trie \<Rightarrow> string \<Rightarrow> bool \<times> 32 word" where
  "MatchTopicQOS t topic =
     (let ss = Trie_Match t topic in (length ss \<noteq> 0, fold (\<lambda>q m. max (ucast q) m) ss 0))"

text \<open>
  Modelled from the spec: \<^verbatim>\<open>queue.Queue\<close> is not under src. Section 6 gives
  \<^verbatim>\<open>Push(event)\<close> returning an error. The model records every event handed to \<^verbatim>\<open>Push\<close>
  and returns the queue's own result.
\<close>

record Queue =
  pushes :: "Event list"
  push_result :: "error option"

definition Queue_Push :: "Event \<Rightarrow> Queue \<Rightarrow> error option \<times> Queue" where
  "Queue_Push e q = (push_result q, q\<lparr>pushes := pushes q @ [e]\<rparr>)"

text \<open>
  Modelled from the spec: the session bucket is not under src. Section 6 gives
  \<^verbatim>\<open>SetKV(key, value)\<close> and \<^verbatim>\<open>DelKV(key)\<close>; each write or delete may fail or not
  (section 7). The field \<open>outcomes\<close> lists the results of the calls to come, the next
  call first; when the list is used up the calls succeed. Every call takes the head of
  the list; a call that fails returns its error and keeps the records.
\<close>

record Bucket =
  kv :: "string \<rightharpoonup> Info"
  outcomes :: "error option list"

text \<open>The result of the next call on the bucket.\<close>

definition failure :: "Bucket \<Rightarrow> error option" where
  "failure b = (case outcomes b of [] \<Rightarrow> None | r # rs \<Rightarrow> r)"

definition SetKV :: "string \<Rightarrow> Info \<Rightarrow> Bucket \<Rightarrow> error option \<times> Bucket" where
  "SetKV k v b =
     (case failure b of
        Some err \<Rightarrow> (Some err, b\<lparr>outcomes := tl (outcomes b)\<rparr>)
      | None \<Rightarrow> (None, b\<lparr>kv := (kv b)(k \<mapsto> v), outcomes := tl (outcomes b)\<rparr>))"

definition DelKV :: "string \<Rightarrow> Bucket \<Rightarrow> error option \<times> Bucket" where
  "DelKV k b =
     (case failure b of
        Some err \<Rightarrow> (Some err, b\<lparr>outcomes := tl (outcomes b)\<rparr>)
      | None \<Rightarrow> (None, b\<lparr>kv := (kv b)(k := None), outcomes := tl (outcomes b)\<rparr>))"

text \<open>The calls of \<^verbatim>\<open>exch.Bind(topic, s)\<close> and \<^verbatim>\<open>exch.Unbind(topic, s)\<close> made by this
  session, oldest first.\<close>

datatype ExchCall = Bind string | Unbind string

text \<open>
  Modelled from the spec: the topic exchange is not under src. Section 6: \<^verbatim>\<open>Bind\<close>
  registers and \<^verbatim>\<open>Unbind\<close> deregisters the interest of the session in a topic, both
  idempotent. \<open>bound cs\<close> is the set of topics bound to the session after the calls \<open>cs\<close>.
\<close>

primrec exch_step :: "ExchCall \<Rightarrow> string set \<Rightarrow> string set" where
  "exch_step (Bind topic) B = insert topic B"
| "exch_step (Unbind topic) B = B - {topic}"

definition bound :: "ExchCall list \<Rightarrow> string set" where
  "bound cs = fold exch_step cs {}"

text \<open>The lines written by the logger: the message and the field attached to it.\<close>

datatype LogMessage = Msg string | ErrMsg error

datatype LogField = AnyMessage Event | AnyTopic string | ErrorField error

datatype LogEntry = Warn LogMessage LogField | Error LogMessage LogField

text \<open>Modelled from the spec: the ack cache is declared outside src; it maps sequence
  ids to outstanding deliveries and is anchored at an offset.\<close>

record cache =
  offset :: "64 word"
  outstanding :: "(64 word \<times> Event) list"

text \<open>The action name \<^verbatim>\<open>Subscribe\<close> handed to the authorization callback is a constant
  of the package declared outside src.\<close>

definition Subscribe :: string where
  "Subscribe = ''sub''"

subsection \<open>Session\<close>

record Manager =
  exch :: "ExchCall list"
  sessionBucket :: Bucket

record Session =
  info :: Info
  manager :: Manager
  qos0 :: Queue
  qos1 :: Queue
  subs :: Trie
  cache :: cache
  log :: "LogEntry list"
  completed :: "Event list"

definition persistent :: "Session \<Rightarrow> Session" where
  "persistent s =
     (if CleanSession (info s) then
        (case DelKV (ID (info s)) (sessionBucket (manager s)) of
           (err, b) \<Rightarrow>
             (case err of
                Some e \<Rightarrow>
                  s\<lparr>manager := (manager s)\<lparr>sessionBucket := b\<rparr>,
                    log := log s @ [Error (Msg ''failed to delete session'') (ErrorField e)]\<rparr>
              | None \<Rightarrow> s\<lparr>manager := (manager s)\<lparr>sessionBucket := b\<rparr>\<rparr>))
      else
        (case SetKV (ID (info s)) (info s) (sessionBucket (manager s)) of
           (err, b) \<Rightarrow>
             (case err of
                Some e \<Rightarrow>
                  s\<lparr>manager := (manager s)\<lparr>sessionBucket := b\<rparr>,
                    log := log s @ [Error (Msg ''failed to persist session'') (ErrorField e)]\<rparr>
              | None \<Rightarrow> s\<lparr>manager := (manager s)\<lparr>sessionBucket := b\<rparr>\<rparr>)))"

definition update :: "Info \<Rightarrow> Session \<Rightarrow> Session" where
  "update si s =
     persistent (s\<lparr>info := (info s)\<lparr>WillMessage := WillMessage si,
                                     CleanSession := CleanSession si\<rparr>\<rparr>)"

definition qos0_Push :: "Event \<Rightarrow> Session \<Rightarrow> error option \<times> Session" where
  "qos0_Push e s = (case Queue_Push e (qos0 s) of (err, q) \<Rightarrow> (err, s\<lparr>qos0 := q\<rparr>))"

definition qos1_Push :: "Event \<Rightarrow> Session \<Rightarrow> error option \<times> Session" where
  "qos1_Push e s = (case Queue_Push e (qos1 s) of (err, q) \<Rightarrow> (err, s\<lparr>qos1 := q\<rparr>))"

text \<open>The loop of \<^verbatim>\<open>Push\<close> over the matching QoS values: the first one above 0 sends the
  event to the queue for QoS 1; with none, the event goes to the queue for QoS 0.\<close>

fun Push_range :: "QOS list \<Rightarrow> Event \<Rightarrow> Session \<Rightarrow> error option \<times> Session" where
  "Push_range [] e s = qos0_Push e s"
| "Push_range (q # qs) e s = (if q > 0 then qos1_Push e s else Push_range qs e s)"

definition Push :: "Event \<Rightarrow> Session \<Rightarrow> error option \<times> Session" where
  "Push e s =
     (if QOS (Context e) = 0 then qos0_Push e s
      else
        (let qs = Trie_Match (subs s) (Topic (Context e)) in
         if length qs = 0 then
           (None,
            s\<lparr>log := log s @ [Warn (Msg ''a message is ignored since there is no sub matched'')
                                  (AnyMessage e)],
              completed := completed s @ [e]\<rparr>)
         else Push_range qs e s))"

text \<open>
  The body of the first loop of \<^verbatim>\<open>subscribe\<close>, for one entry of
  \<^verbatim>\<open>s.info.Subscriptions\<close>. The loop runs over the entries of a map that is not nil
  (it was made just before), so the assignment to the map never meets a nil map.
\<close>

definition subscribe_set :: "string \<times> QOS \<Rightarrow> Session \<Rightarrow> Session" where
  "subscribe_set p s =
     s\<lparr>subs := Trie_Set (fst p) (snd p) (subs s),
       manager := (manager s)\<lparr>exch := exch (manager s) @ [Bind (fst p)]\<rparr>,
       info := (info s)\<lparr>Subscriptions :=
                 map_option (assoc_set (fst p) (snd p)) (Subscriptions (info s))\<rparr>\<rparr>"

text \<open>The body of the second loop, for one topic of \<^verbatim>\<open>s.info.Subscriptions\<close>.\<close>

definition subscribe_check :: "(string \<Rightarrow> string \<Rightarrow> bool) option \<Rightarrow> string \<Rightarrow> Session \<Rightarrow> Session" where
  "subscribe_check auth topic s =
     (case auth of
        None \<Rightarrow> s
      | Some a \<Rightarrow>
          if a Subscribe topic then s
          else
            s\<lparr>log := log s @ [Warn (ErrMsg ErrSessionMessageTopicNotPermitted) (AnyTopic topic)],
              subs := Trie_Empty topic (subs s),
              manager := (manager s)\<lparr>exch := exch (manager s) @ [Unbind topic]\<rparr>,
              info := (info s)\<lparr>Subscriptions :=
                        map_option (assoc_delete topic) (Subscriptions (info s))\<rparr>\<rparr>)"

text \<open>\<^verbatim>\<open>subscribe\<close> reads of its batch \<open>sbs\<close> the length only: both loops range over
  \<^verbatim>\<open>s.info.Subscriptions\<close>.\<close>

definition subscribe :: "Subscription list \<Rightarrow> (string \<Rightarrow> string \<Rightarrow> bool) option \<Rightarrow> Session \<Rightarrow> Session" where
  "subscribe sbs auth s =
     (if length sbs = 0 then s
      else
        (let s1 = (if Subscriptions (info s) = None
                   then s\<lparr>info := (info s)\<lparr>Subscriptions := Some []\<rparr>\<rparr> else s);
             s2 = fold subscribe_set (entries (info s1)) s1;
             s3 = fold (subscribe_check auth) (map fst (entries (info s2))) s2
         in persistent s3))"

definition unsubscribe_topic :: "string \<Rightarrow> Session \<Rightarrow> Session" where
  "unsubscribe_topic topic s =
     s\<lparr>subs := Trie_Empty topic (subs s),
       manager := (manager s)\<lparr>exch := exch (manager s) @ [Unbind topic]\<rparr>,
       info := (info s)\<lparr>Subscriptions :=
                 map_option (assoc_delete topic) (Subscriptions (info s))\<rparr>\<rparr>"

definition unsubscribe :: "string list \<Rightarrow> Session \<Rightarrow> Session" where
  "unsubscribe topics s =
     (if length topics = 0 then s else persistent (fold unsubscribe_topic topics s))"

definition matchQOS :: "string \<Rightarrow> Session \<Rightarrow> bool \<times> 32 word" where
  "matchQOS topic s = MatchTopicQOS (subs s) topic"


subsection \<open>Example sessions\<close>

text \<open>A session as \<^verbatim>\<open>newSession\<close> leaves it for a client without subscriptions: its
  last step is \<^verbatim>\<open>persistent\<close>, so the bucket holds the record of the session.\<close>

definition session_new :: Session where
  "session_new =
     \<lparr>info = \<lparr>ID = ''c1'', WillMessage = None, Subscriptions = None, CleanSession = False\<rparr>,
      manager =
        \<lparr>exch = [],
         sessionBucket =
           \<lparr>kv = [''c1'' \<mapsto> \<lparr>ID = ''c1'', WillMessage = None, Subscriptions = None,
                                CleanSession = False\<rparr>],
            outcomes = []\<rparr>\<rparr>,
      qos0 = \<lparr>pushes = [], push_result = None\<rparr>,
      qos1 = \<lparr>pushes = [], push_result = None\<rparr>,
      subs = [],
      cache = \<lparr>offset = 1, outstanding = []\<rparr>,
      log = [],
      completed = []\<rparr>"

text \<open>A session that holds the subscriptions \<open>m\<close>: recorded in \<^verbatim>\<open>Info\<close>, registered in
  the matcher, bound in the exchange and persisted in the bucket.\<close>

definition with_subscriptions :: "(string \<times> QOS) list \<Rightarrow> Session" where
  "with_subscriptions m =
     session_new\<lparr>info := (info session_new)\<lparr>Subscriptions := Some m\<rparr>,
                 subs := m,
                 manager :=
                   \<lparr>exch = map (\<lambda>p. Bind (fst p)) m,
                    sessionBucket =
                      \<lparr>kv = [''c1'' \<mapsto> (info session_new)\<lparr>Subscriptions := Some m\<rparr>],
                       outcomes = []\<rparr>\<rparr>\<rparr>"

definition session_xy :: Session where
  "session_xy = with_subscriptions [(''x'', 0), (''y'', 0)]"

definition session_ab :: Session where
  "session_ab = with_subscriptions [(''a/#'', 0), (''a/b'', 1)]"

definition session_a0 :: Session where
  "session_a0 = with_subscriptions [(''a/#'', 0), (''a/+'', 0)]"

text \<open>The same session with \<^verbatim>\<open>CleanSession\<close> set, its record still in the bucket.\<close>

definition session_clean :: Session where
  "session_clean = session_ab\<lparr>info := (info session_ab)\<lparr>CleanSession := True\<rparr>\<rparr>"

text \<open>The same session on a bucket whose next call fails and whose later calls succeed.\<close>

definition session_failing :: Session where
  "session_failing =
     session_ab\<lparr>manager := (manager session_ab)
                  \<lparr>sessionBucket := (sessionBucket (manager session_ab))
                                      \<lparr>outcomes := [Some (Failure ''disk'')]\<rparr>\<rparr>\<rparr>"

text \<open>An authorization callback that rejects the topic \<^verbatim>\<open>x\<close> and accepts all others.\<close>

definition reject_x :: "string \<Rightarrow> string \<Rightarrow> bool" where
  "reject_x action topic = (topic \<noteq> ''x'')"

definition event :: "string \<Rightarrow> 32 word \<Rightarrow> Event" where
  "event topic qos = \<lparr>Context = \<lparr>QOS = qos, Topic = topic\<rparr>, Content = ''payload''\<rparr>"


section \<open>Properties of the collaborators and of the loops\<close>

lemma word_ge_1_iff: "(1 \<le> (x::'a::len word)) = (x \<noteq> 0)"
  by (simp add: word_le_nat_alt unat_gt_0 Suc_le_eq)

lemma assoc_delete_filter: "assoc_delete k ps = filter (\<lambda>p. fst p \<noteq> k) ps"
  by (induction ps) auto

lemma fold_assoc_delete: "fold assoc_delete ts ps = filter (\<lambda>p. fst p \<notin> set ts) ps"
proof (induction ts arbitrary: ps)
  case Nil
  show ?case by simp
next
  case (Cons t ts)
  have "fold assoc_delete (t # ts) ps = filter (\<lambda>p. fst p \<notin> set ts) (assoc_delete t ps)"
    by (simp add: Cons.IH)
  also have "\<dots> = filter (\<lambda>p. fst p \<notin> set (t # ts)) ps"
    by (simp add: assoc_delete_filter conj_commute)
  finally show ?case .
qed

lemma fold_assoc_delete_fun: "fold assoc_delete ts = filter (\<lambda>p. fst p \<notin> set ts)"
  by (rule ext) (rule fold_assoc_delete)

lemma assoc_filter_id: "k \<notin> fst ` set m \<Longrightarrow> filter (\<lambda>p. fst p \<noteq> k) m = m"
  by (induction m) auto

lemma bound_append: "bound (cs @ ds) = fold exch_step ds (bound cs)"
  by (simp add: bound_def)

lemma fold_Unbind: "fold exch_step (map Unbind ts) B = B - set ts"
  by (induction ts arbitrary: B) auto

lemma MatchTopicQOS_no_match:
  "(MatchTopicQOS t topic = (False, 0)) = (\<forall>p \<in> set t. \<not> topic_matches (fst p) topic)"
  by (auto simp add: MatchTopicQOS_def Trie_Match_def Let_def filter_empty_conv)

text \<open>The body of the first loop of \<^verbatim>\<open>subscribe\<close> runs on a map that was made, and
  leaves it made; a nil map has no entries to run on. So the assignment to
  \<^verbatim>\<open>s.info.Subscriptions[topic]\<close> cannot panic.\<close>

lemma subscribe_set_not_nil:
  "Subscriptions (info s) \<noteq> None \<Longrightarrow> Subscriptions (info (subscribe_set p s)) \<noteq> None"
  by (simp add: subscribe_set_def)

lemma entries_nil: "Subscriptions i = None \<Longrightarrow> entries i = []"
  by (simp add: entries_def)

subsection \<open>What \<^verbatim>\<open>persistent\<close> leaves alone\<close>

lemma persistent_info: "info (persistent s) = info s"
  by (simp add: persistent_def split: prod.splits option.splits)

lemma persistent_frame:
  "subs (persistent s) = subs s"
  "qos0 (persistent s) = qos0 s"
  "qos1 (persistent s) = qos1 s"
  "cache (persistent s) = cache s"
  "completed (persistent s) = completed s"
  "exch (manager (persistent s)) = exch (manager s)"
  by (simp_all add: persistent_def split: prod.splits option.splits)

text \<open>The records of the bucket after \<^verbatim>\<open>persistent\<close>, by the result of the call.\<close>

lemma persistent_kv:
  "kv (sessionBucket (manager (persistent s))) =
     (case failure (sessionBucket (manager s)) of
        Some err \<Rightarrow> kv (sessionBucket (manager s))
      | None \<Rightarrow>
          if CleanSession (info s) then (kv (sessionBucket (manager s)))(ID (info s) := None)
          else (kv (sessionBucket (manager s)))(ID (info s) \<mapsto> info s))"
  by (simp add: persistent_def SetKV_def DelKV_def split: prod.splits option.splits)

text \<open>The example session without subscriptions is what \<^verbatim>\<open>persistent\<close> makes of it
  on an empty bucket.\<close>

lemma session_new_persisted:
  "persistent (session_new\<lparr>manager := \<lparr>exch = [], sessionBucket = \<lparr>kv = Map.empty, outcomes = []\<rparr>\<rparr>\<rparr>)
     = session_new"
  by (simp add: persistent_def SetKV_def failure_def session_new_def)

subsection \<open>The queues\<close>

lemma qos0_Push_eq:
  "qos0_Push e s = (push_result (qos0 s), s\<lparr>qos0 := (qos0 s)\<lparr>pushes := pushes (qos0 s) @ [e]\<rparr>\<rparr>)"
  by (simp add: qos0_Push_def Queue_Push_def)

lemma qos1_Push_eq:
  "qos1_Push e s = (push_result (qos1 s), s\<lparr>qos1 := (qos1 s)\<lparr>pushes := pushes (qos1 s) @ [e]\<rparr>\<rparr>)"
  by (simp add: qos1_Push_def Queue_Push_def)

lemma Push_range_eq:
  "Push_range qs e s = (if \<exists>q \<in> set qs. 1 \<le> q then qos1_Push e s else qos0_Push e s)"
  by (induction qs) (auto simp add: word_ge_1_iff word_gt_0)

subsection \<open>The loop of \<^verbatim>\<open>unsubscribe\<close>\<close>

lemma fold_unsubscribe_subs:
  "subs (fold unsubscribe_topic ts s) = fold assoc_delete ts (subs s)"
  by (induction ts arbitrary: s) (simp_all add: unsubscribe_topic_def Trie_Empty_def)

lemma fold_unsubscribe_info:
  "info (fold unsubscribe_topic ts s) =
     (info s)\<lparr>Subscriptions := map_option (fold assoc_delete ts) (Subscriptions (info s))\<rparr>"
  by (induction ts arbitrary: s)
    (simp_all add: unsubscribe_topic_def option.map_comp comp_def option.map_ident option.map_id)

lemma fold_unsubscribe_exch:
  "exch (manager (fold unsubscribe_topic ts s)) = exch (manager s) @ map Unbind ts"
  by (induction ts arbitrary: s) (simp_all add: unsubscribe_topic_def)

lemma fold_unsubscribe_bucket:
  "sessionBucket (manager (fold unsubscribe_topic ts s)) = sessionBucket (manager s)"
  by (induction ts arbitrary: s) (simp_all add: unsubscribe_topic_def)

lemma unsubscribe_subs:
  "topics \<noteq> [] \<Longrightarrow> subs (unsubscribe topics s) = filter (\<lambda>p. fst p \<notin> set topics) (subs s)"
  by (simp add: unsubscribe_def persistent_frame fold_unsubscribe_subs fold_assoc_delete)

lemma unsubscribe_info:
  "topics \<noteq> [] \<Longrightarrow> info (unsubscribe topics s) =
     (info s)\<lparr>Subscriptions :=
        map_option (filter (\<lambda>p. fst p \<notin> set topics)) (Subscriptions (info s))\<rparr>"
  by (simp add: unsubscribe_def persistent_info fold_unsubscribe_info fold_assoc_delete_fun)

lemma unsubscribe_bound:
  "topics \<noteq> [] \<Longrightarrow>
     bound (exch (manager (unsubscribe topics s))) = bound (exch (manager s)) - set topics"
  by (simp add: unsubscribe_def persistent_frame fold_unsubscribe_exch bound_append fold_Unbind)

lemma unsubscribe_absent:
  assumes "topic \<notin> fst ` set (entries (info s))" and "topic \<notin> fst ` set (subs s)"
  shows "info (unsubscribe [topic] s) = info s \<and> subs (unsubscribe [topic] s) = subs s"
proof -
  have "map_option (filter (\<lambda>p. fst p \<noteq> topic)) (Subscriptions (info s)) = Subscriptions (info s)"
  proof (cases "Subscriptions (info s)")
    case None
    then show ?thesis by simp
  next
    case (Some m)
    with assms(1) have "topic \<notin> fst ` set m" by (simp add: entries_def)
    with Some show ?thesis by (simp add: assoc_filter_id)
  qed
  then have "info (unsubscribe [topic] s) = info s"
    by (simp add: unsubscribe_info)
  moreover have "subs (unsubscribe [topic] s) = subs s"
    using assms(2) by (simp add: unsubscribe_subs assoc_filter_id)
  ultimately show ?thesis by simp
qed

text \<open>The records of the bucket after a second \<^verbatim>\<open>unsubscribe\<close> of the same topics are
  those after the first, unless the write or delete of the first call failed and that of
  the second call succeeded.\<close>

lemma unsubscribe_twice_kv:
  assumes "failure (sessionBucket (manager s)) = None \<or>
           failure (sessionBucket (manager (unsubscribe topics s))) \<noteq> None"
  shows "kv (sessionBucket (manager (unsubscribe topics (unsubscribe topics s)))) =
         kv (sessionBucket (manager (unsubscribe topics s)))"
proof (cases "topics = []")
  case True
  then show ?thesis by (simp add: unsubscribe_def)
next
  case False
  let ?f1 = "fold unsubscribe_topic topics s"
  let ?s1 = "unsubscribe topics s"
  let ?f2 = "fold unsubscribe_topic topics ?s1"
  have s1: "?s1 = persistent ?f1" and s2: "unsubscribe topics ?s1 = persistent ?f2"
    using False by (simp_all add: unsubscribe_def)
  have i: "info ?f2 = info ?f1"
    by (simp add: s1 fold_unsubscribe_info persistent_info fold_assoc_delete_fun
        option.map_comp comp_def)
  have b2: "sessionBucket (manager ?f2) = sessionBucket (manager ?s1)"
    by (rule fold_unsubscribe_bucket)
  have b1: "sessionBucket (manager ?f1) = sessionBucket (manager s)"
    by (rule fold_unsubscribe_bucket)
  show ?thesis
  proof (cases "failure (sessionBucket (manager ?s1))")
    case (Some err)
    then show ?thesis
      unfolding s2 by (simp add: persistent_kv b2)
  next
    case None
    with assms have ok: "failure (sessionBucket (manager s)) = None" by simp
    have k1: "kv (sessionBucket (manager ?s1)) =
        (if CleanSession (info ?f1) then (kv (sessionBucket (manager s)))(ID (info ?f1) := None)
         else (kv (sessionBucket (manager s)))(ID (info ?f1) \<mapsto> info ?f1))"
      unfolding s1 by (simp add: persistent_kv b1 ok)
    have "kv (sessionBucket (manager (unsubscribe topics ?s1))) =
        (if CleanSession (info ?f1) then (kv (sessionBucket (manager ?s1)))(ID (info ?f1) := None)
         else (kv (sessionBucket (manager ?s1)))(ID (info ?f1) \<mapsto> info ?f1))"
      unfolding s2 by (simp add: persistent_kv b2 i None)
    also have "\<dots> = kv (sessionBucket (manager ?s1))"
      by (simp add: k1)
    finally show ?thesis .
  qed
qed

subsection \<open>The matcher on the example sessions\<close>

lemma Trie_Match_ab: "Trie_Match (subs session_ab) ''a/b'' = [0, 1]"
  by (simp add: session_ab_def with_subscriptions_def session_new_def Trie_Match_def
      topic_matches_def)

lemma Trie_Match_a0: "Trie_Match (subs session_a0) ''a/b'' = [0, 0]"
  by (simp add: session_a0_def with_subscriptions_def session_new_def Trie_Match_def
      topic_matches_def)

lemma Trie_Match_ab_c: "Trie_Match (subs session_ab) ''c'' = []"
  by (simp add: session_ab_def with_subscriptions_def session_new_def Trie_Match_def
      topic_matches_def)


section \<open>The claims\<close>

subsection \<open>\<^verbatim>\<open>subscribe\<close>\<close>

text \<open>
  C1. The claim: after \<^verbatim>\<open>subscribe\<close> with a batch that is not empty and no authorization
  callback, every pair of the batch is in \<^verbatim>\<open>Info.Subscriptions\<close>, registered in the
  matcher and bound in the exchange. The code ranges over \<^verbatim>\<open>s.info.Subscriptions\<close>
  where the batch is meant: on a new session, subscribing to \<^verbatim>\<open>a\<close> with QoS 1 makes the
  map, which stays empty, registers nothing in the matcher and binds nothing.
\<close>

theorem subscribe_new_session_records_nothing:
  "Subscriptions (info (subscribe [\<lparr>sub_Topic = ''a'', sub_QOS = 1\<rparr>] None session_new)) = Some [] \<and>
   subs (subscribe [\<lparr>sub_Topic = ''a'', sub_QOS = 1\<rparr>] None session_new) = [] \<and>
   exch (manager (subscribe [\<lparr>sub_Topic = ''a'', sub_QOS = 1\<rparr>] None session_new)) = []"
  by (simp add: subscribe_def session_new_def entries_def persistent_info persistent_frame)

text \<open>
  C2. The claim: from the subscriptions \<^verbatim>\<open>{"x":0,"y":0}\<close>, \<^verbatim>\<open>subscribe\<close> with the batch
  \<^verbatim>\<open>("z",0)\<close> and a callback that rejects \<^verbatim>\<open>x\<close> only leaves exactly
  \<^verbatim>\<open>{"y":0,"z":0}\<close>, with \<^verbatim>\<open>x\<close> unregistered and unbound. The code does remove \<^verbatim>\<open>x\<close>
  from the map, the matcher and the exchange, but \<^verbatim>\<open>z\<close> is never added: what is left is
  \<^verbatim>\<open>{"y":0}\<close>.
\<close>

theorem subscribe_recheck_leaves_y_only:
  "Subscriptions (info (subscribe [\<lparr>sub_Topic = ''z'', sub_QOS = 0\<rparr>] (Some reject_x) session_xy))
     = Some [(''y'', 0)] \<and>
   subs (subscribe [\<lparr>sub_Topic = ''z'', sub_QOS = 0\<rparr>] (Some reject_x) session_xy) = [(''y'', 0)] \<and>
   exch (manager (subscribe [\<lparr>sub_Topic = ''z'', sub_QOS = 0\<rparr>] (Some reject_x) session_xy))
     = [Bind ''x'', Bind ''y'', Bind ''x'', Bind ''y'', Unbind ''x''] \<and>
   bound (exch (manager (subscribe [\<lparr>sub_Topic = ''z'', sub_QOS = 0\<rparr>] (Some reject_x) session_xy)))
     = {''y''}"
  by (simp add: subscribe_def session_xy_def with_subscriptions_def session_new_def entries_def
      persistent_info persistent_frame subscribe_set_def subscribe_check_def reject_x_def
      Trie_Set_def Trie_Empty_def bound_def insert_Diff_if)

text \<open>
  C3. From the same session and with the same authorization callback, \<^verbatim>\<open>subscribe\<close>
  ends in the same state for any two batches that are not empty: the same \<^verbatim>\<open>Info\<close>, the
  same matcher, the same calls of the exchange, the same bucket, the same log. The batch is
  read for its length only.
\<close>

theorem subscribe_batch_irrelevant:
  assumes "sbs1 \<noteq> []" and "sbs2 \<noteq> []"
  shows "subscribe sbs1 auth s = subscribe sbs2 auth s"
  using assms by (simp add: subscribe_def)

theorem subscribe_batch_irrelevant_witness:
  "[\<lparr>sub_Topic = ''z'', sub_QOS = 0\<rparr>] \<noteq> [] \<and> [\<lparr>sub_Topic = ''w'', sub_QOS = 1\<rparr>] \<noteq> [] \<and>
   subscribe [\<lparr>sub_Topic = ''z'', sub_QOS = 0\<rparr>] (Some reject_x) session_xy =
   subscribe [\<lparr>sub_Topic = ''w'', sub_QOS = 1\<rparr>] (Some reject_x) session_xy"
  using subscribe_batch_irrelevant [of "[\<lparr>sub_Topic = ''z'', sub_QOS = 0\<rparr>]"
      "[\<lparr>sub_Topic = ''w'', sub_QOS = 1\<rparr>]" "Some reject_x" session_xy]
  by simp

subsection \<open>\<^verbatim>\<open>Push\<close>\<close>

text \<open>
  C4. An event of QoS at least 1 whose topic matches a subscription of the matcher: when
  one of the matching subscriptions has QoS at least 1, \<^verbatim>\<open>Push\<close> hands the event to the
  queue for QoS 1 and returns that queue's result, and the queue for QoS 0 is as before;
  when all matching subscriptions have QoS 0, it hands the event to the queue for QoS 0,
  and the queue for QoS 1 is as before. Nothing else of the session changes, so the event
  reaches exactly one queue.
\<close>

theorem Push_guaranteed_matched:
  assumes "1 \<le> QOS (Context e)" and "Trie_Match (subs s) (Topic (Context e)) \<noteq> []"
  shows "((\<exists>q \<in> set (Trie_Match (subs s) (Topic (Context e))). 1 \<le> q) \<longrightarrow>
           Push e s = (push_result (qos1 s),
                       s\<lparr>qos1 := (qos1 s)\<lparr>pushes := pushes (qos1 s) @ [e]\<rparr>\<rparr>)) \<and>
         ((\<forall>q \<in> set (Trie_Match (subs s) (Topic (Context e))). q = 0) \<longrightarrow>
           Push e s = (push_result (qos0 s),
                       s\<lparr>qos0 := (qos0 s)\<lparr>pushes := pushes (qos0 s) @ [e]\<rparr>\<rparr>))"
  using assms
  by (auto simp add: Push_def Let_def Push_range_eq qos0_Push_eq qos1_Push_eq word_ge_1_iff)

theorem Push_guaranteed_matched_witness:
  "1 \<le> QOS (Context (event ''a/b'' 1)) \<and>
   Trie_Match (subs session_ab) (Topic (Context (event ''a/b'' 1))) = [0, 1] \<and>
   Push (event ''a/b'' 1) session_ab =
     (None, session_ab\<lparr>qos1 := \<lparr>pushes = [event ''a/b'' 1], push_result = None\<rparr>\<rparr>) \<and>
   Trie_Match (subs session_a0) (Topic (Context (event ''a/b'' 1))) = [0, 0] \<and>
   Push (event ''a/b'' 1) session_a0 =
     (None, session_a0\<lparr>qos0 := \<lparr>pushes = [event ''a/b'' 1], push_result = None\<rparr>\<rparr>)"
  using Push_guaranteed_matched [of "event ''a/b'' 1" session_ab]
    Push_guaranteed_matched [of "event ''a/b'' 1" session_a0]
  by (simp add: Trie_Match_ab Trie_Match_a0 event_def)
    (simp add: session_ab_def session_a0_def with_subscriptions_def session_new_def)

text \<open>
  C5. An event of QoS at least 1 whose topic matches no subscription of the matcher:
  \<^verbatim>\<open>Push\<close> logs a warning, calls the completion callback of the event, returns no error,
  and leaves both queues as they were.
\<close>

theorem Push_guaranteed_unmatched:
  assumes "1 \<le> QOS (Context e)" and "Trie_Match (subs s) (Topic (Context e)) = []"
  shows "Push e s =
           (None,
            s\<lparr>log := log s @ [Warn (Msg ''a message is ignored since there is no sub matched'')
                                  (AnyMessage e)],
              completed := completed s @ [e]\<rparr>) \<and>
         qos0 (snd (Push e s)) = qos0 s \<and> qos1 (snd (Push e s)) = qos1 s"
  using assms by (simp add: Push_def word_ge_1_iff)

theorem Push_guaranteed_unmatched_witness:
  "1 \<le> QOS (Context (event ''c'' 1)) \<and>
   Trie_Match (subs session_ab) (Topic (Context (event ''c'' 1))) = [] \<and>
   fst (Push (event ''c'' 1) session_ab) = None \<and>
   completed (snd (Push (event ''c'' 1) session_ab)) = [event ''c'' 1] \<and>
   pushes (qos0 (snd (Push (event ''c'' 1) session_ab))) = [] \<and>
   pushes (qos1 (snd (Push (event ''c'' 1) session_ab))) = []"
  using Push_guaranteed_unmatched [of "event ''c'' 1" session_ab]
  by (simp add: Trie_Match_ab_c event_def)
    (simp add: session_ab_def with_subscriptions_def session_new_def)

text \<open>
  C6. An event of QoS 0 goes to the queue for QoS 0 and \<^verbatim>\<open>Push\<close> returns that queue's
  result, whatever the matcher holds: with any matcher \<open>t\<close> in place of the session's own
  the result is the same and the matcher is as before.
\<close>

theorem Push_best_effort:
  assumes "QOS (Context e) = 0"
  shows "Push e s =
           (push_result (qos0 s), s\<lparr>qos0 := (qos0 s)\<lparr>pushes := pushes (qos0 s) @ [e]\<rparr>\<rparr>) \<and>
         Push e (s\<lparr>subs := t\<rparr>) =
           (push_result (qos0 s),
            s\<lparr>subs := t, qos0 := (qos0 s)\<lparr>pushes := pushes (qos0 s) @ [e]\<rparr>\<rparr>)"
  using assms by (simp add: Push_def qos0_Push_eq)

theorem Push_best_effort_witness:
  "QOS (Context (event ''a/b'' 0)) = 0 \<and>
   Push (event ''a/b'' 0) session_ab =
     (None, session_ab\<lparr>qos0 := \<lparr>pushes = [event ''a/b'' 0], push_result = None\<rparr>\<rparr>) \<and>
   Push (event ''a/b'' 0) (session_ab\<lparr>subs := []\<rparr>) =
     (None, session_ab\<lparr>subs := [], qos0 := \<lparr>pushes = [event ''a/b'' 0], push_result = None\<rparr>\<rparr>)"
  using Push_best_effort [of "event ''a/b'' 0" session_ab "[]"]
  by (simp add: event_def)
    (simp add: session_ab_def with_subscriptions_def session_new_def)

subsection \<open>\<^verbatim>\<open>unsubscribe\<close>\<close>

text \<open>
  C7, as amended. After \<^verbatim>\<open>unsubscribe(topics)\<close>, a topic of the list is registered
  neither in the matcher nor in \<^verbatim>\<open>Info.Subscriptions\<close>, and \<^verbatim>\<open>matchQOS\<close> of it returns
  "no match" exactly when every pattern that was registered before the call and matches
  the topic is in the list too. A wildcard pattern that stays registered still matches.
\<close>

theorem unsubscribe_matchQOS:
  assumes "topic \<in> set topics"
  shows "topic \<notin> fst ` set (subs (unsubscribe topics s)) \<and>
         topic \<notin> fst ` set (entries (info (unsubscribe topics s))) \<and>
         ((matchQOS topic (unsubscribe topics s) = (False, 0)) \<longleftrightarrow>
            (\<forall>p \<in> fst ` set (subs s). topic_matches p topic \<longrightarrow> p \<in> set topics))"
proof -
  from assms have ne: "topics \<noteq> []" by auto
  have a: "topic \<notin> fst ` set (subs (unsubscribe topics s))"
    using assms by (auto simp add: unsubscribe_subs [OF ne])
  have b: "topic \<notin> fst ` set (entries (info (unsubscribe topics s)))"
    using assms by (auto simp add: unsubscribe_info [OF ne] entries_def split: option.splits)
  have c: "(matchQOS topic (unsubscribe topics s) = (False, 0)) \<longleftrightarrow>
            (\<forall>p \<in> fst ` set (subs s). topic_matches p topic \<longrightarrow> p \<in> set topics)"
    by (auto simp add: matchQOS_def MatchTopicQOS_no_match unsubscribe_subs [OF ne])
  from a b c show ?thesis by blast
qed

theorem unsubscribe_matchQOS_witness:
  "''a/b'' \<in> set [''a/#'', ''a/b''] \<and>
   topic_matches ''a/#'' ''a/b'' \<and> topic_matches ''a/b'' ''a/b'' \<and>
   subs (unsubscribe [''a/#'', ''a/b''] session_ab) = [] \<and>
   matchQOS ''a/b'' (unsubscribe [''a/#'', ''a/b''] session_ab) = (False, 0)"
  using unsubscribe_matchQOS [of "''a/b''" "[''a/#'', ''a/b'']" session_ab]
  by (simp add: topic_matches_def unsubscribe_subs
      session_ab_def with_subscriptions_def session_new_def)

text \<open>The claim as it was written fails on the session with the subscriptions
  \<^verbatim>\<open>{"a/#":0, "a/b":1}\<close>: after \<^verbatim>\<open>unsubscribe(["a/b"])\<close> the pattern \<^verbatim>\<open>a/#\<close> still
  matches the topic \<^verbatim>\<open>a/b\<close>.\<close>

theorem unsubscribe_matchQOS_counterexample:
  "''a/b'' \<in> set [''a/b''] \<and> matchQOS ''a/b'' (unsubscribe [''a/b''] session_ab) = (True, 0)"
  by (simp add: matchQOS_def MatchTopicQOS_def Trie_Match_def topic_matches_def
      unsubscribe_subs session_ab_def with_subscriptions_def session_new_def)

text \<open>
  C8, as amended. A second \<^verbatim>\<open>unsubscribe\<close> with the same topics ends with the same
  \<^verbatim>\<open>Info\<close>, the same matcher and the same topics bound in the exchange as the first
  call (for one topic, \<open>topics\<close> is \<open>[topic]\<close>). The records of the bucket are the same
  too, unless the write or delete of the first call failed and that of the second call
  succeeded: a failure is logged and not tried again, so the second call then persists
  what the first did not. Unsubscribing a topic that is neither in
  \<^verbatim>\<open>Info.Subscriptions\<close> nor in the matcher changes neither of them, and a topic that is
  not bound leaves the bound topics as they were; \<^verbatim>\<open>unsubscribe\<close> has no error to
  return.
\<close>

theorem unsubscribe_twice:
  "info (unsubscribe topics (unsubscribe topics s)) = info (unsubscribe topics s) \<and>
   subs (unsubscribe topics (unsubscribe topics s)) = subs (unsubscribe topics s) \<and>
   bound (exch (manager (unsubscribe topics (unsubscribe topics s)))) =
     bound (exch (manager (unsubscribe topics s))) \<and>
   (failure (sessionBucket (manager s)) = None \<or>
    failure (sessionBucket (manager (unsubscribe topics s))) \<noteq> None \<longrightarrow>
      kv (sessionBucket (manager (unsubscribe topics (unsubscribe topics s)))) =
        kv (sessionBucket (manager (unsubscribe topics s)))) \<and>
   (topic \<notin> fst ` set (entries (info s)) \<and> topic \<notin> fst ` set (subs s) \<longrightarrow>
      info (unsubscribe [topic] s) = info s \<and> subs (unsubscribe [topic] s) = subs s) \<and>
   (topic \<notin> bound (exch (manager s)) \<longrightarrow>
      bound (exch (manager (unsubscribe [topic] s))) = bound (exch (manager s)))"
proof -
  have n: "topic \<notin> fst ` set (entries (info s)) \<and> topic \<notin> fst ` set (subs s) \<longrightarrow>
      info (unsubscribe [topic] s) = info s \<and> subs (unsubscribe [topic] s) = subs s"
    using unsubscribe_absent by blast
  have m: "topic \<notin> bound (exch (manager s)) \<longrightarrow>
      bound (exch (manager (unsubscribe [topic] s))) = bound (exch (manager s))"
    by (simp add: unsubscribe_bound)
  have k: "failure (sessionBucket (manager s)) = None \<or>
    failure (sessionBucket (manager (unsubscribe topics s))) \<noteq> None \<longrightarrow>
      kv (sessionBucket (manager (unsubscribe topics (unsubscribe topics s)))) =
        kv (sessionBucket (manager (unsubscribe topics s)))"
    using unsubscribe_twice_kv by blast
  show ?thesis
  proof (cases "topics = []")
    case True
    with n m show ?thesis by (simp add: unsubscribe_def)
  next
    case False
    have i: "info (unsubscribe topics (unsubscribe topics s)) = info (unsubscribe topics s)"
      by (simp add: unsubscribe_info [OF False] option.map_comp comp_def)
    have t: "subs (unsubscribe topics (unsubscribe topics s)) = subs (unsubscribe topics s)"
      by (simp add: unsubscribe_subs [OF False])
    have e: "bound (exch (manager (unsubscribe topics (unsubscribe topics s)))) =
       bound (exch (manager (unsubscribe topics s)))"
      by (auto simp add: unsubscribe_bound [OF False])
    from i t e n m k show ?thesis by blast
  qed
qed

theorem unsubscribe_twice_witness:
  "''c'' \<notin> fst ` set (entries (info session_ab)) \<and> ''c'' \<notin> fst ` set (subs session_ab) \<and>
   ''c'' \<notin> bound (exch (manager session_ab)) \<and>
   info (unsubscribe [''c''] session_ab) = info session_ab \<and>
   subs (unsubscribe [''c''] session_ab) = subs session_ab \<and>
   bound (exch (manager (unsubscribe [''c''] session_ab))) = bound (exch (manager session_ab)) \<and>
   failure (sessionBucket (manager session_ab)) = None \<and>
   info (unsubscribe [''a/b''] (unsubscribe [''a/b''] session_ab)) =
     info (unsubscribe [''a/b''] session_ab) \<and>
   Subscriptions (info (unsubscribe [''a/b''] session_ab)) = Some [(''a/#'', 0)] \<and>
   kv (sessionBucket (manager (unsubscribe [''a/b''] (unsubscribe [''a/b''] session_ab)))) =
     kv (sessionBucket (manager (unsubscribe [''a/b''] session_ab))) \<and>
   kv (sessionBucket (manager (unsubscribe [''a/b''] session_ab))) ''c1'' =
     Some (info (unsubscribe [''a/b''] session_ab))"
  using unsubscribe_twice [of "[''a/b'']" session_ab "''c''"]
  by (simp add: entries_def bound_def unsubscribe_def unsubscribe_topic_def Trie_Empty_def
      persistent_def SetKV_def failure_def
      session_ab_def with_subscriptions_def session_new_def)

text \<open>The claim as it was written fails on a bucket whose write fails at the first call
  and succeeds at the second: after one \<^verbatim>\<open>unsubscribe(["a/b"])\<close> the bucket still holds
  the record with both subscriptions, after two it holds the record without \<^verbatim>\<open>a/b\<close>.\<close>

theorem unsubscribe_twice_counterexample:
  "kv (sessionBucket (manager (unsubscribe [''a/b''] session_failing))) ''c1'' =
     Some \<lparr>ID = ''c1'', WillMessage = None,
           Subscriptions = Some [(''a/#'', 0), (''a/b'', 1)], CleanSession = False\<rparr> \<and>
   kv (sessionBucket (manager (unsubscribe [''a/b''] (unsubscribe [''a/b''] session_failing)))) ''c1'' =
     Some \<lparr>ID = ''c1'', WillMessage = None,
           Subscriptions = Some [(''a/#'', 0)], CleanSession = False\<rparr> \<and>
   kv (sessionBucket (manager (unsubscribe [''a/b''] (unsubscribe [''a/b''] session_failing)))) ''c1'' \<noteq>
     kv (sessionBucket (manager (unsubscribe [''a/b''] session_failing))) ''c1''"
  by (simp add: unsubscribe_def unsubscribe_topic_def persistent_def SetKV_def failure_def
      session_failing_def session_ab_def with_subscriptions_def session_new_def)

subsection \<open>\<^verbatim>\<open>persistent\<close> and \<^verbatim>\<open>update\<close>\<close>

text \<open>
  C9. \<^verbatim>\<open>persistent\<close> calls \<^verbatim>\<open>DelKV\<close> with the session id when \<^verbatim>\<open>CleanSession\<close> is set,
  and \<^verbatim>\<open>SetKV\<close> with the session id and the whole \<^verbatim>\<open>Info\<close> otherwise; on a bucket that
  does not fail the record of the session is then gone, or is the \<^verbatim>\<open>Info\<close>. An error of
  the bucket becomes one line of the log and nothing else: \<^verbatim>\<open>persistent\<close> returns no
  error, and \<^verbatim>\<open>Info\<close>, the matcher, the cache, the queues and the exchange are as before.
\<close>

theorem persistent_effect:
  "info (persistent s) = info s \<and>
   subs (persistent s) = subs s \<and> cache (persistent s) = cache s \<and>
   qos0 (persistent s) = qos0 s \<and> qos1 (persistent s) = qos1 s \<and>
   exch (manager (persistent s)) = exch (manager s) \<and>
   completed (persistent s) = completed s \<and>
   (CleanSession (info s) \<longrightarrow>
      sessionBucket (manager (persistent s)) = snd (DelKV (ID (info s)) (sessionBucket (manager s))) \<and>
      log (persistent s) =
        log s @ (case fst (DelKV (ID (info s)) (sessionBucket (manager s))) of
                   None \<Rightarrow> []
                 | Some err \<Rightarrow> [Error (Msg ''failed to delete session'') (ErrorField err)]) \<and>
      (failure (sessionBucket (manager s)) = None \<longrightarrow>
         kv (sessionBucket (manager (persistent s))) (ID (info s)) = None)) \<and>
   (\<not> CleanSession (info s) \<longrightarrow>
      sessionBucket (manager (persistent s)) =
        snd (SetKV (ID (info s)) (info s) (sessionBucket (manager s))) \<and>
      log (persistent s) =
        log s @ (case fst (SetKV (ID (info s)) (info s) (sessionBucket (manager s))) of
                   None \<Rightarrow> []
                 | Some err \<Rightarrow> [Error (Msg ''failed to persist session'') (ErrorField err)]) \<and>
      (failure (sessionBucket (manager s)) = None \<longrightarrow>
         kv (sessionBucket (manager (persistent s))) (ID (info s)) = Some (info s)))"
  by (simp add: persistent_def SetKV_def DelKV_def split: prod.splits option.splits)

theorem persistent_effect_witness:
  "\<not> CleanSession (info session_ab) \<and> failure (sessionBucket (manager session_ab)) = None \<and>
   kv (sessionBucket (manager (persistent session_ab))) ''c1'' = Some (info session_ab) \<and>
   log (persistent session_ab) = [] \<and>
   CleanSession (info session_clean) \<and> failure (sessionBucket (manager session_clean)) = None \<and>
   kv (sessionBucket (manager session_clean)) ''c1'' = Some (info session_ab) \<and>
   kv (sessionBucket (manager (persistent session_clean))) ''c1'' = None \<and>
   log (persistent session_clean) = [] \<and>
   failure (sessionBucket (manager session_failing)) = Some (Failure ''disk'') \<and>
   info (persistent session_failing) = info session_failing \<and>
   kv (sessionBucket (manager (persistent session_failing))) =
     kv (sessionBucket (manager session_failing)) \<and>
   log (persistent session_failing) =
     [Error (Msg ''failed to persist session'') (ErrorField (Failure ''disk''))]"
  using persistent_effect [of session_ab] persistent_effect [of session_clean]
    persistent_effect [of session_failing]
  by (simp add: SetKV_def DelKV_def failure_def session_clean_def session_failing_def
      session_ab_def with_subscriptions_def session_new_def)

text \<open>
  C10. \<^verbatim>\<open>update\<close> sets \<^verbatim>\<open>WillMessage\<close> and \<^verbatim>\<open>CleanSession\<close> to those of the new
  \<^verbatim>\<open>Info\<close> and then persists: the bucket is the one \<^verbatim>\<open>DelKV\<close> or \<^verbatim>\<open>SetKV\<close> of the
  updated \<^verbatim>\<open>Info\<close> leaves, and an error of the bucket is one line of the log. The id,
  the subscriptions, the matcher, the cache, the queues and the calls of the exchange are
  as before.
\<close>

theorem update_effect:
  "WillMessage (info (update si s)) = WillMessage si \<and>
   CleanSession (info (update si s)) = CleanSession si \<and>
   ID (info (update si s)) = ID (info s) \<and>
   Subscriptions (info (update si s)) = Subscriptions (info s) \<and>
   subs (update si s) = subs s \<and>
   cache (update si s) = cache s \<and>
   qos0 (update si s) = qos0 s \<and> qos1 (update si s) = qos1 s \<and>
   exch (manager (update si s)) = exch (manager s) \<and>
   completed (update si s) = completed s \<and>
   sessionBucket (manager (update si s)) =
     (if CleanSession si then snd (DelKV (ID (info s)) (sessionBucket (manager s)))
      else snd (SetKV (ID (info s)) (info (update si s)) (sessionBucket (manager s)))) \<and>
   log (update si s) =
     log s @ (case failure (sessionBucket (manager s)) of
                None \<Rightarrow> []
              | Some err \<Rightarrow>
                  [Error (Msg (if CleanSession si then ''failed to delete session''
                               else ''failed to persist session'')) (ErrorField err)])"
  by (simp add: update_def persistent_def SetKV_def DelKV_def split: prod.splits option.splits)

end
